theory Spec2Isabelle
  imports Main "HOL-Library.AList"
begin

section \<open>EDULINE adaptive quiz: the session engine of try.py\<close>

text \<open>
  The quiz engine of \<^verbatim>\<open>try.py\<close> consists of three helpers that mutate the
  dictionary \<^verbatim>\<open>quiz\<close>: \<^verbatim>\<open>reset_quiz_state\<close>, \<^verbatim>\<open>load_next_question\<close> and
  \<^verbatim>\<open>submit_answer\<close>, together with the inline handlers of the quiz page. The
  dictionary becomes a record that every function takes and returns; the two calls into
  \<^verbatim>\<open>random\<close> take their outcome as an argument; the wall clock is an argument too.
\<close>

subsection \<open>Configuration\<close>

text \<open>\<^verbatim>\<open>CLUSTER_LIMITS = {"English": 7, "Mathematics": 8}\<close> and \<^verbatim>\<open>MIN_CLUSTER = 1\<close>.\<close>

definition CLUSTER_LIMITS :: "string \<rightharpoonup> int" where
  "CLUSTER_LIMITS = map_of [(''English'', 7), (''Mathematics'', 8)]"

definition MIN_CLUSTER :: int where
  "MIN_CLUSTER = 1"

text \<open>\<^verbatim>\<open>d.get(k, default)\<close> on a dictionary given as a partial map.\<close>

definition get_or :: "('k \<rightharpoonup> 'v) \<Rightarrow> 'k \<Rightarrow> 'v \<Rightarrow> 'v" where
  "get_or d k dflt = (case d k of None \<Rightarrow> dflt | Some v \<Rightarrow> v)"

subsection \<open>Strings\<close>

text \<open>
  \<^verbatim>\<open>str.strip()\<close> removes the leading and trailing whitespace, \<^verbatim>\<open>str.upper()\<close>
  maps every letter to upper case. Both are modelled on ASCII text: the whitespace
  characters are the ASCII characters for which \<^verbatim>\<open>str.isspace\<close> holds (codes 9 to 13,
  28 to 31 and 32), and only the letters a to z change under \<^verbatim>\<open>upper\<close>.
  Outside ASCII the model and Python differ: Python also strips the Unicode whitespace
  (such as U+00A0) and maps the non-ASCII letters, which these functions leave alone.
  The general properties below do not look inside either function.
\<close>

definition isspace :: "char \<Rightarrow> bool" where
  "isspace c \<longleftrightarrow> c \<in> set [CHR 0x09, CHR 0x0A, CHR 0x0B, CHR 0x0C, CHR 0x0D,
                           CHR 0x1C, CHR 0x1D, CHR 0x1E, CHR 0x1F, CHR 0x20]"

definition strip :: "string \<Rightarrow> string" where
  "strip s = rev (dropWhile isspace (rev (dropWhile isspace s)))"

definition upper_char :: "char \<Rightarrow> char" where
  "upper_char c =
     (case map_of (zip ''abcdefghijklmnopqrstuvwxyz'' ''ABCDEFGHIJKLMNOPQRSTUVWXYZ'') c of
        None \<Rightarrow> c
      | Some u \<Rightarrow> u)"

definition upper :: "string \<Rightarrow> string" where
  "upper s = map upper_char s"

text \<open>The two feedback texts; the leading emoji is written as its three UTF-8 bytes.\<close>

definition feedback_correct :: string where
  "feedback_correct = [CHR 0xE2, CHR 0x9C, CHR 0x85] @ '' Correct! Great job.''"

definition feedback_wrong :: "string \<Rightarrow> string" where
  "feedback_wrong correct = [CHR 0xE2, CHR 0x9D, CHR 0x8C] @ '' Wrong! Correct answer: '' @ correct"

subsection \<open>Data model\<close>

text \<open>
  One row of the question table (columns Subject, Cluster, Question, Option A to D,
  Correct Answer). The cell of Correct Answer is kept as the text \<^verbatim>\<open>str\<close> gives.
\<close>

record question =
  q_subject :: string
  q_cluster :: int
  q_text :: string
  option_a :: string
  option_b :: string
  option_c :: string
  option_d :: string
  correct_answer :: string

text \<open>
  The dictionary \<^verbatim>\<open>quiz\<close>. The current question is a row together with its label
  (\<^verbatim>\<open>q.name\<close>), the position of the row among the rows of the session's subject.
  \<^verbatim>\<open>weak_clusters\<close> is a Python dictionary whose order of insertion is read back by
  the retry handlers, so it is an association list. The key \<^verbatim>\<open>cluster_name_map\<close> of
  the initial dictionary is never read or written again and is left out.
\<close>

record quiz =
  started :: bool
  subject :: string
  cluster :: int
  question_index :: int
  total_questions :: int
  score :: int
  used_indices :: "nat list"
  current_question :: "(nat \<times> question) option"
  submitted :: bool
  feedback :: string
  weak_clusters :: "(int \<times> int) list"
  mode :: string
  weak_only_list :: "int list"
  time_left :: int
  last_tick :: int
  enable_timer :: bool

datatype error = TypeError

subsection \<open>reset_quiz_state\<close>

text \<open>
  \<^verbatim>\<open>weak_only_list\<close> defaults to \<^verbatim>\<open>None\<close>; \<^verbatim>\<open>now\<close> is the value of
  \<^verbatim>\<open>datetime.now()\<close>. The function has no raising path: the only subscript,
  \<^verbatim>\<open>weak_only_list[0]\<close>, is guarded by the truth value of the list.
\<close>

definition reset_quiz_state ::
  "string \<Rightarrow> int \<Rightarrow> string \<Rightarrow> int list option \<Rightarrow> bool \<Rightarrow> int \<Rightarrow> quiz" where
  "reset_quiz_state subj total_q md wol timer now =
     (let mid = get_or CLUSTER_LIMITS subj 6 div 2;
          start_cluster =
            (if md = ''normal'' then mid
             else (case wol of Some (c # cs) \<Rightarrow> c | _ \<Rightarrow> mid));
          total_time = total_q * 15;
          wl = (case wol of Some l \<Rightarrow> l | None \<Rightarrow> [])
      in \<lparr> started = True,
           subject = subj,
           cluster = start_cluster,
           question_index = 0,
           total_questions = total_q,
           score = 0,
           used_indices = [],
           current_question = None,
           submitted = False,
           feedback = [],
           weak_clusters =
             (if md = ''normal'' then [] else fold (\<lambda>c d. AList.update c 0 d) wl []),
           mode = md,
           weak_only_list = wl,
           time_left = (if timer then total_time else 0),
           last_tick = now,
           enable_timer = timer \<rparr>)"

subsection \<open>load_next_question\<close>

text \<open>
  \<^verbatim>\<open>df_all[df_all["Subject"] == subject].reset_index(drop=True)\<close>: the rows of the
  subject, labelled 0, 1, 2, ... in table order.
\<close>

definition df_subj_of :: "question list \<Rightarrow> string \<Rightarrow> (nat \<times> question) list" where
  "df_subj_of df_all subj = enumerate 0 (filter (\<lambda>r. q_subject r = subj) df_all)"

text \<open>\<^verbatim>\<open>frame.drop(used_indices, errors="ignore")\<close>: the rows whose label is not listed.\<close>

definition drop_used :: "nat list \<Rightarrow> (nat \<times> question) list \<Rightarrow> (nat \<times> question) list" where
  "drop_used used rows = filter (\<lambda>p. fst p \<notin> set used) rows"

text \<open>
  \<^verbatim>\<open>random.choice(xs)\<close> and \<^verbatim>\<open>subset.sample(1).iloc[0]\<close> on a non-empty sequence:
  the random source is the number \<open>r\<close>, and every element can be drawn.
\<close>

definition random_choice :: "nat \<Rightarrow> 'a list \<Rightarrow> 'a" where
  "random_choice r xs = xs ! (r mod length xs)"

definition load_next_question :: "question list \<Rightarrow> nat \<Rightarrow> nat \<Rightarrow> quiz \<Rightarrow> bool \<times> quiz" where
  "load_next_question df_all r1 r2 quiz =
     (let df_subj = df_subj_of df_all (subject quiz);
          weak = (mode quiz = ''weak_only'' \<and> weak_only_list quiz \<noteq> []);
          quiz1 =
            (if weak \<and> cluster quiz \<notin> set (weak_only_list quiz)
             then quiz\<lparr>cluster := random_choice r1 (weak_only_list quiz)\<rparr>
             else quiz);
          target_cluster = cluster quiz1;
          subset = drop_used (used_indices quiz1)
                     (filter (\<lambda>p. q_cluster (snd p) = target_cluster) df_subj);
          subset' =
            (if subset = [] then
               (if weak
                then drop_used (used_indices quiz1)
                       (filter (\<lambda>p. q_cluster (snd p) \<in> set (weak_only_list quiz1)) df_subj)
                else drop_used (used_indices quiz1) df_subj)
             else subset)
      in if subset' = [] then (False, quiz1)
         else (let q = random_choice r2 subset'
               in (True, quiz1\<lparr>current_question := Some q,
                                used_indices := used_indices quiz1 @ [fst q],
                                submitted := False,
                                feedback := []\<rparr>)))"

subsection \<open>submit_answer\<close>

text \<open>
  With no current question, \<^verbatim>\<open>q["Correct Answer"]\<close> subscripts \<^verbatim>\<open>None\<close> and raises
  \<^verbatim>\<open>TypeError\<close> before anything is written.
\<close>

definition submit_answer :: "string \<Rightarrow> quiz \<Rightarrow> error + quiz" where
  "submit_answer choice_key quiz =
     (case current_question quiz of
        None \<Rightarrow> Inl TypeError
      | Some q \<Rightarrow>
          (let correct = upper (strip (correct_answer (snd q)));
               cluster_at_time = cluster quiz;
               quiz' =
                 (if choice_key = correct then
                    (let quiz1 = quiz\<lparr>score := score quiz + 1\<rparr>;
                         quiz2 =
                           (if mode quiz1 = ''normal''
                            then quiz1\<lparr>cluster :=
                                   min (get_or CLUSTER_LIMITS (subject quiz1) (cluster quiz1 + 1))
                                       (cluster quiz1 + 1)\<rparr>
                            else quiz1)
                     in quiz2\<lparr>feedback := feedback_correct\<rparr>)
                  else
                    (let quiz1 =
                           (if mode quiz = ''normal''
                            then quiz\<lparr>cluster := max MIN_CLUSTER (cluster quiz - 1)\<rparr>
                            else quiz);
                         quiz2 = quiz1\<lparr>feedback := feedback_wrong correct\<rparr>
                     in quiz2\<lparr>weak_clusters :=
                          AList.update cluster_at_time
                            (get_or (map_of (weak_clusters quiz2)) cluster_at_time 0 + 1)
                            (weak_clusters quiz2)\<rparr>))
           in Inr (quiz'\<lparr>submitted := True\<rparr>)))"

subsection \<open>The handlers of the quiz page\<close>

text \<open>
  \<^verbatim>\<open>finish_and_record\<close> writes the result row and leaves the quiz stopped; the database
  and the page stage are outside the dictionary \<^verbatim>\<open>quiz\<close>.
\<close>

definition finish_and_record :: "quiz \<Rightarrow> quiz" where
  "finish_and_record quiz = quiz\<lparr>started := False\<rparr>"

text \<open>The button "Next Question".\<close>

definition next_question :: "quiz \<Rightarrow> quiz" where
  "next_question quiz =
     (let quiz1 = quiz\<lparr>question_index := question_index quiz + 1,
                        current_question := None,
                        submitted := False,
                        feedback := []\<rparr>
      in if question_index quiz1 \<ge> total_questions quiz1 then finish_and_record quiz1
         else quiz1)"

text \<open>
  The button "Retry Weak Areas" of the subject page: the clusters with a positive miss
  count, in dictionary order; with none, the page only shows a notice and the dictionary
  stays as it is (\<open>None\<close>).
\<close>

definition retry_weak_areas :: "string \<Rightarrow> int \<Rightarrow> bool \<Rightarrow> int \<Rightarrow> quiz \<Rightarrow> quiz option" where
  "retry_weak_areas subj total_q timer now quiz =
     (let weak_list = map fst (filter (\<lambda>p. snd p > 0) (weak_clusters quiz))
      in if weak_list = [] then None
         else Some (reset_quiz_state subj total_q ''weak_only'' (Some weak_list) timer now))"

subsection \<open>Sessions as sequences of calls\<close>

text \<open>
  A session is a fresh state followed by any sequence of calls. The page calls
  \<^verbatim>\<open>load_next_question\<close> and finishes the round when it returns \<^verbatim>\<open>False\<close>;
  an exception of \<^verbatim>\<open>submit_answer\<close> ends the run.
\<close>

datatype event = Load nat nat | Submit string | Next

definition quiz_step :: "question list \<Rightarrow> event \<Rightarrow> quiz \<Rightarrow> error + quiz" where
  "quiz_step df_all ev quiz =
     (case ev of
        Load r1 r2 \<Rightarrow>
          (case load_next_question df_all r1 r2 quiz of
             (ok, quiz') \<Rightarrow> Inr (if ok then quiz' else finish_and_record quiz'))
      | Submit choice_key \<Rightarrow> submit_answer choice_key quiz
      | Next \<Rightarrow> Inr (next_question quiz))"

text \<open>The states a run goes through, the first one included.\<close>

fun trace :: "question list \<Rightarrow> event list \<Rightarrow> quiz \<Rightarrow> quiz list" where
  "trace df_all [] quiz = [quiz]"
| "trace df_all (ev # evs) quiz =
     quiz # (case quiz_step df_all ev quiz of Inl e \<Rightarrow> [] | Inr quiz' \<Rightarrow> trace df_all evs quiz')"

text \<open>
  Whether every \<^verbatim>\<open>submit_answer\<close> of a run took the branch \<open>verdict\<close> of its
  comparison (\<open>True\<close>: the chosen key equals the normalised correct key).
\<close>

fun answers_all :: "bool \<Rightarrow> question list \<Rightarrow> event list \<Rightarrow> quiz \<Rightarrow> bool" where
  "answers_all verdict df_all [] quiz = True"
| "answers_all verdict df_all (ev # evs) quiz =
     ((case ev of
         Submit choice_key \<Rightarrow>
           (case current_question quiz of
              None \<Rightarrow> True
            | Some q \<Rightarrow> (choice_key = upper (strip (correct_answer (snd q)))) = verdict)
       | _ \<Rightarrow> True)
      \<and> (case quiz_step df_all ev quiz of
            Inl e \<Rightarrow> True
          | Inr quiz' \<Rightarrow> answers_all verdict df_all evs quiz'))"

text \<open>
  The questions a run presents, in order: after each call of
  \<^verbatim>\<open>load_next_question\<close> that returns \<^verbatim>\<open>True\<close>, the row the call left as the
  current question, with its label. This is read off the current question, not off
  \<^verbatim>\<open>used_indices\<close>.
\<close>

definition presented :: "question list \<Rightarrow> event \<Rightarrow> quiz \<Rightarrow> (nat \<times> question) list" where
  "presented df_all ev quiz =
     (case ev of
        Load r1 r2 \<Rightarrow>
          (case load_next_question df_all r1 r2 quiz of
             (ok, quiz') \<Rightarrow>
               if ok then (case current_question quiz' of None \<Rightarrow> [] | Some p \<Rightarrow> [p]) else [])
      | _ \<Rightarrow> [])"

fun selections :: "question list \<Rightarrow> event list \<Rightarrow> quiz \<Rightarrow> (nat \<times> question) list" where
  "selections df_all [] quiz = []"
| "selections df_all (ev # evs) quiz =
     presented df_all ev quiz @
     (case quiz_step df_all ev quiz of Inl e \<Rightarrow> [] | Inr quiz' \<Rightarrow> selections df_all evs quiz')"

subsection \<open>The candidate pools of a selection, as the specification words them\<close>

text \<open>
  The selection is described by its pools: the target cluster, the unused rows of the
  subject, the pool of the target cluster and the widened pool. These definitions follow
  the description, not the code; \<open>load_next_question\<close> is compared with them below.
\<close>

definition weak_active :: "quiz \<Rightarrow> bool" where
  "weak_active quiz \<longleftrightarrow> mode quiz = ''weak_only'' \<and> weak_only_list quiz \<noteq> []"

definition target_cluster_of :: "nat \<Rightarrow> quiz \<Rightarrow> int" where
  "target_cluster_of r1 quiz =
     (if weak_active quiz \<and> cluster quiz \<notin> set (weak_only_list quiz)
      then random_choice r1 (weak_only_list quiz)
      else cluster quiz)"

definition unused_rows :: "question list \<Rightarrow> quiz \<Rightarrow> (nat \<times> question) list" where
  "unused_rows df_all quiz =
     filter (\<lambda>p. fst p \<notin> set (used_indices quiz)) (df_subj_of df_all (subject quiz))"

definition cluster_pool :: "question list \<Rightarrow> nat \<Rightarrow> quiz \<Rightarrow> (nat \<times> question) list" where
  "cluster_pool df_all r1 quiz =
     filter (\<lambda>p. q_cluster (snd p) = target_cluster_of r1 quiz) (unused_rows df_all quiz)"

text \<open>
  The widened pool the code builds: the candidate clusters count only in
  \<^verbatim>\<open>weak_only\<close> mode with a non-empty candidate list.
\<close>

definition widened_pool :: "question list \<Rightarrow> quiz \<Rightarrow> (nat \<times> question) list" where
  "widened_pool df_all quiz =
     (if weak_active quiz
      then filter (\<lambda>p. q_cluster (snd p) \<in> set (weak_only_list quiz)) (unused_rows df_all quiz)
      else unused_rows df_all quiz)"

text \<open>
  The widened pool as the specification states it: in \<^verbatim>\<open>weak_only\<close> mode the unused
  rows whose cluster is in the candidate list, otherwise all unused rows of the subject.
\<close>

definition spec_widened_pool :: "question list \<Rightarrow> quiz \<Rightarrow> (nat \<times> question) list" where
  "spec_widened_pool df_all quiz =
     (if mode quiz = ''weak_only''
      then filter (\<lambda>p. q_cluster (snd p) \<in> set (weak_only_list quiz)) (unused_rows df_all quiz)
      else unused_rows df_all quiz)"

definition candidate_pool :: "question list \<Rightarrow> nat \<Rightarrow> quiz \<Rightarrow> (nat \<times> question) list" where
  "candidate_pool df_all r1 quiz =
     (if cluster_pool df_all r1 quiz = [] then widened_pool df_all quiz
      else cluster_pool df_all r1 quiz)"

subsection \<open>Example data\<close>

definition mk_question :: "string \<Rightarrow> int \<Rightarrow> string \<Rightarrow> question" where
  "mk_question subj c ans =
     \<lparr> q_subject = subj, q_cluster = c, q_text = ''?'', option_a = ''1'', option_b = ''2'',
       option_c = ''3'', option_d = ''4'', correct_answer = ans \<rparr>"

text \<open>A small table: three rows of Mathematics (labels 0, 1, 2) and one of English.\<close>

definition ex_bank :: "question list" where
  "ex_bank = [mk_question ''Mathematics'' 4 ''A'',
              mk_question ''English'' 5 ''C'',
              mk_question ''Mathematics'' 5 '' b '',
              mk_question ''Mathematics'' 2 ''d'']"

text \<open>A fresh round of Mathematics, and the same round after its first selection.\<close>

definition ex_fresh :: quiz where
  "ex_fresh = reset_quiz_state ''Mathematics'' 3 ''normal'' None True 0"

definition ex_loaded :: quiz where
  "ex_loaded = snd (load_next_question ex_bank 0 0 ex_fresh)"

text \<open>A table whose only row of Mathematics lies outside the starting cluster 4.\<close>

definition ex_sparse_bank :: "question list" where
  "ex_sparse_bank = [mk_question ''Mathematics'' 2 ''D'']"

definition ex_widened :: quiz where
  "ex_widened = snd (load_next_question ex_sparse_bank 0 0 ex_fresh)"

text \<open>Rounds in weak-only mode: without candidates, and with the candidates 5 and 2.\<close>

definition ex_weak_empty :: quiz where
  "ex_weak_empty = reset_quiz_state ''English'' 5 ''weak_only'' (Some []) True 0"

definition ex_weak :: quiz where
  "ex_weak = reset_quiz_state ''Mathematics'' 3 ''weak_only'' (Some [5, 2]) True 0"

definition ex_weak_loaded :: quiz where
  "ex_weak_loaded = snd (load_next_question ex_bank 0 0 ex_weak)"

text \<open>Two runs of the fresh round: every answer right, and every answer wrong.\<close>

definition ex_correct_run :: "event list" where
  "ex_correct_run = [Load 0 0, Submit ''A'', Next, Load 0 0, Submit ''B'']"

definition ex_wrong_run :: "event list" where
  "ex_wrong_run = [Load 0 0, Submit ''x'', Next, Load 0 0, Submit ''x'']"

text \<open>
  A subject without an entry in \<open>CLUSTER_LIMITS\<close>: four rows of Physics, a fresh round
  on them, and a run of four correct answers.
\<close>

definition ex_physics_bank :: "question list" where
  "ex_physics_bank = [mk_question ''Physics'' 3 ''A'',
                      mk_question ''Physics'' 4 ''A'',
                      mk_question ''Physics'' 5 ''A'',
                      mk_question ''Physics'' 6 ''A'']"

definition ex_physics_fresh :: quiz where
  "ex_physics_fresh = reset_quiz_state ''Physics'' 5 ''normal'' None True 0"

definition ex_physics_loaded :: quiz where
  "ex_physics_loaded = snd (load_next_question ex_physics_bank 0 0 ex_physics_fresh)"

definition ex_physics_run :: "event list" where
  "ex_physics_run = [Load 0 0, Submit ''A'', Next, Load 0 0, Submit ''A'', Next,
                     Load 0 0, Submit ''A'', Next, Load 0 0, Submit ''A'']"

text \<open>A weak-only state whose cluster is not among its candidates 5 and 2.\<close>

definition ex_weak_stray :: quiz where
  "ex_weak_stray = ex_weak\<lparr>cluster := 9\<rparr>"

section \<open>Properties\<close>

subsection \<open>Evaluation of the examples\<close>

lemmas ex_defs =
  ex_bank_def ex_sparse_bank_def mk_question_def ex_fresh_def ex_loaded_def ex_widened_def
  ex_weak_empty_def ex_weak_def ex_weak_loaded_def ex_correct_run_def ex_wrong_run_def
  ex_physics_bank_def ex_physics_fresh_def ex_physics_loaded_def ex_physics_run_def ex_weak_stray_def

lemmas code_defs =
  reset_quiz_state_def load_next_question_def submit_answer_def next_question_def
  finish_and_record_def quiz_step_def df_subj_of_def drop_used_def random_choice_def
  get_or_def CLUSTER_LIMITS_def MIN_CLUSTER_def upper_def upper_char_def strip_def
  isspace_def Let_def

lemmas pool_defs =
  candidate_pool_def widened_pool_def spec_widened_pool_def cluster_pool_def unused_rows_def
  target_cluster_of_def weak_active_def

subsection \<open>The random draws\<close>

lemma random_choice_in: "xs \<noteq> [] \<Longrightarrow> random_choice r xs \<in> set xs"
  by (simp add: random_choice_def)

lemma random_choice_surj: "x \<in> set xs \<Longrightarrow> \<exists>r. random_choice r xs = x"
  by (metis in_set_conv_nth mod_less random_choice_def)

lemma load_next_question_eq:
  "load_next_question df_all r1 r2 quiz =
     (let quiz1 = quiz\<lparr>cluster := target_cluster_of r1 quiz\<rparr>;
          pool = candidate_pool df_all r1 quiz
      in if pool = [] then (False, quiz1)
         else (True, quiz1\<lparr>current_question := Some (random_choice r2 pool),
                           used_indices := used_indices quiz @ [fst (random_choice r2 pool)],
                           submitted := False,
                           feedback := []\<rparr>))"
  by (simp add: load_next_question_def candidate_pool_def widened_pool_def cluster_pool_def
      unused_rows_def target_cluster_of_def weak_active_def drop_used_def Let_def conj_commute)

lemma candidate_pool_unused:
  "p \<in> set (candidate_pool df_all r1 quiz) \<Longrightarrow> p \<in> set (unused_rows df_all quiz)"
  by (auto simp: candidate_pool_def widened_pool_def cluster_pool_def split: if_splits)

lemma unused_rows_fresh:
  "p \<in> set (unused_rows df_all quiz) \<Longrightarrow> fst p \<notin> set (used_indices quiz)"
  by (simp add: unused_rows_def)

lemma target_cluster_of_normal:
  "mode quiz = ''normal'' \<Longrightarrow> target_cluster_of r1 quiz = cluster quiz"
  by (simp add: target_cluster_of_def weak_active_def)

lemma target_cluster_of_weak:
  "weak_active quiz \<Longrightarrow> target_cluster_of r1 quiz \<in> set (weak_only_list quiz)"
  by (simp add: target_cluster_of_def weak_active_def random_choice_in)

subsection \<open>What each call leaves alone\<close>

lemma load_next_question_frame:
  assumes "load_next_question df_all r1 r2 quiz = (ok, quiz')"
  shows "mode quiz' = mode quiz" and "subject quiz' = subject quiz"
    and "weak_only_list quiz' = weak_only_list quiz"
    and "weak_clusters quiz' = weak_clusters quiz"
    and "cluster quiz' = target_cluster_of r1 quiz"
  using assms by (auto simp: load_next_question_eq Let_def split: if_splits)

lemma load_next_question_used:
  assumes "load_next_question df_all r1 r2 quiz = (ok, quiz')"
    and "distinct (used_indices quiz)"
  shows "distinct (used_indices quiz')"
proof (cases "candidate_pool df_all r1 quiz = []")
  case True
  with assms show ?thesis by (auto simp: load_next_question_eq Let_def)
next
  case False
  then have "random_choice r2 (candidate_pool df_all r1 quiz) \<in> set (unused_rows df_all quiz)"
    by (intro candidate_pool_unused[of _ df_all r1] random_choice_in)
  then have "fst (random_choice r2 (candidate_pool df_all r1 quiz)) \<notin> set (used_indices quiz)"
    by (rule unused_rows_fresh)
  with False assms show ?thesis by (auto simp: load_next_question_eq Let_def)
qed

lemma submit_answer_frame:
  assumes "submit_answer choice_key quiz = Inr quiz'"
  shows "mode quiz' = mode quiz" and "subject quiz' = subject quiz"
    and "weak_only_list quiz' = weak_only_list quiz"
    and "used_indices quiz' = used_indices quiz"
  using assms by (auto simp: submit_answer_def Let_def split: option.splits if_splits)

lemma next_question_frame:
  "mode (next_question quiz) = mode quiz" "subject (next_question quiz) = subject quiz"
  "weak_only_list (next_question quiz) = weak_only_list quiz"
  "used_indices (next_question quiz) = used_indices quiz"
  "cluster (next_question quiz) = cluster quiz"
  "weak_clusters (next_question quiz) = weak_clusters quiz"
  by (simp_all add: next_question_def finish_and_record_def Let_def)

lemma quiz_step_frame:
  assumes "quiz_step df_all ev quiz = Inr quiz'"
  shows "mode quiz' = mode quiz" and "subject quiz' = subject quiz"
    and "weak_only_list quiz' = weak_only_list quiz"
proof -
  show "mode quiz' = mode quiz"
    using assms
    by (cases ev)
      (auto simp: quiz_step_def finish_and_record_def next_question_frame
        dest: load_next_question_frame(1) submit_answer_frame(1) split: prod.splits if_splits)
  show "subject quiz' = subject quiz"
    using assms
    by (cases ev)
      (auto simp: quiz_step_def finish_and_record_def next_question_frame
        dest: load_next_question_frame(2) submit_answer_frame(2) split: prod.splits if_splits)
  show "weak_only_list quiz' = weak_only_list quiz"
    using assms
    by (cases ev)
      (auto simp: quiz_step_def finish_and_record_def next_question_frame
        dest: load_next_question_frame(3) submit_answer_frame(3) split: prod.splits if_splits)
qed

lemma quiz_step_used:
  assumes "quiz_step df_all ev quiz = Inr quiz'" and "distinct (used_indices quiz)"
  shows "distinct (used_indices quiz')"
  using assms
  by (cases ev)
    (auto simp: quiz_step_def finish_and_record_def next_question_frame
      dest: load_next_question_used submit_answer_frame(4) split: prod.splits if_splits)

subsection \<open>Runs\<close>

text \<open>An invariant of every step holds in every state of a run.\<close>

lemma trace_invariant:
  assumes "P quiz"
    and "\<And>ev s s'. P s \<Longrightarrow> quiz_step df_all ev s = Inr s' \<Longrightarrow> P s'"
  shows "\<forall>s \<in> set (trace df_all evs quiz). P s"
  using assms(1)
proof (induction evs arbitrary: quiz)
  case Nil
  then show ?case by simp
next
  case (Cons ev evs)
  show ?case
  proof (cases "quiz_step df_all ev quiz")
    case (Inl e)
    with Cons.prems show ?thesis by simp
  next
    case (Inr quiz')
    with Cons.prems have "P quiz'" by (auto intro: assms(2))
    then have "\<forall>s \<in> set (trace df_all evs quiz'). P s" by (rule Cons.IH)
    with Inr Cons.prems show ?thesis by simp
  qed
qed

lemma trace_Cons: "\<exists>rest. trace df_all evs quiz = quiz # rest"
  by (cases evs) simp_all

lemma trace_nonempty: "trace df_all evs quiz \<noteq> []"
  by (cases evs) simp_all

subsection \<open>Judging an answer\<close>




subsection \<open>The tally of misses\<close>

text \<open>
  C2 (as the code has it). On an incorrect submission the tally entry of the session's
  current cluster, read before this call's regression, grows by exactly one (a missing
  entry counts as zero), and no other entry changes. The cluster of the presented
  question itself is not read.
\<close>

theorem submit_answer_tally:
  assumes "current_question quiz = Some q"
    and "choice_key \<noteq> upper (strip (correct_answer (snd q)))"
  shows "\<exists>quiz'. submit_answer choice_key quiz = Inr quiz' \<and>
           get_or (map_of (weak_clusters quiz')) (cluster quiz) 0 =
             get_or (map_of (weak_clusters quiz)) (cluster quiz) 0 + 1 \<and>
           (\<forall>k. k \<noteq> cluster quiz \<longrightarrow>
              map_of (weak_clusters quiz') k = map_of (weak_clusters quiz) k)"
  using assms by (simp add: submit_answer_def Let_def get_or_def update_conv')

theorem submit_answer_tally_witness:
  "current_question ex_loaded = Some (0, mk_question ''Mathematics'' 4 ''A'') \<and>
   ''B'' \<noteq> upper (strip ''A'') \<and> cluster ex_loaded = 4 \<and>
   (\<exists>quiz'. submit_answer ''B'' ex_loaded = Inr quiz' \<and>
      get_or (map_of (weak_clusters quiz')) 4 0 = 1 \<and> cluster quiz' = 3)"
proof -
  have loaded: "current_question ex_loaded = Some (0, mk_question ''Mathematics'' 4 ''A'')"
    by (simp add: ex_defs code_defs)
  have key: "''B'' \<noteq> upper (strip (correct_answer (snd (0::nat, mk_question ''Mathematics'' 4 ''A''))))"
    by (simp add: ex_defs code_defs)
  have cl: "cluster ex_loaded = 4" and wc: "weak_clusters ex_loaded = []"
    by (simp_all add: ex_defs code_defs)
  have after: "map_sum id cluster (submit_answer ''B'' ex_loaded) = Inr 3"
    by (simp add: ex_defs code_defs)
  from submit_answer_tally[OF loaded key] obtain quiz' where
    "submit_answer ''B'' ex_loaded = Inr quiz'"
    "get_or (map_of (weak_clusters quiz')) (cluster ex_loaded) 0 =
       get_or (map_of (weak_clusters ex_loaded)) (cluster ex_loaded) 0 + 1"
    by blast
  with cl wc after loaded key show ?thesis
    by (auto simp: get_or_def mk_question_def)
qed

text \<open>
  C2 as stated fails for a question from a widened pool: the round is at cluster 4, the
  only unused row lies in cluster 2 and is presented; the miss is tallied under 4, and
  cluster 2 gets no entry.
\<close>

theorem submit_answer_tally_widened_counterexample:
  "map_option (q_cluster \<circ> snd) (current_question ex_widened) = Some 2 \<and>
   cluster ex_widened = 4 \<and>
   map_sum id weak_clusters (submit_answer ''B'' ex_widened) = Inr [(4, 1)]"
  by (simp add: ex_defs code_defs)

text \<open>
  A question drawn from the pool of the target cluster has the session's cluster, so for
  it the tallied cluster is the cluster of the question.
\<close>

lemma load_next_question_cluster_pool:
  assumes "cluster_pool df_all r1 quiz \<noteq> []"
  shows "\<exists>p quiz'. load_next_question df_all r1 r2 quiz = (True, quiz') \<and>
           current_question quiz' = Some p \<and> q_cluster (snd p) = cluster quiz'"
proof -
  let ?pool = "candidate_pool df_all r1 quiz"
  have pool: "?pool = cluster_pool df_all r1 quiz"
    using assms by (simp add: candidate_pool_def)
  then have "random_choice r2 ?pool \<in> set (cluster_pool df_all r1 quiz)"
    using assms by (simp add: random_choice_in)
  then have "q_cluster (snd (random_choice r2 ?pool)) = target_cluster_of r1 quiz"
    by (simp add: cluster_pool_def)
  with pool assms show ?thesis
    by (simp add: load_next_question_eq Let_def)
qed

subsection \<open>Weak-only mode does not adapt\<close>

text \<open>
  C9. In \<^verbatim>\<open>weak_only\<close> mode, with a question loaded, \<open>submit_answer\<close> returns and
  leaves the current cluster as it was, whatever key is chosen.
\<close>

theorem submit_answer_weak_only_cluster:
  assumes "mode quiz = ''weak_only''" and "current_question quiz = Some q"
  shows "\<exists>quiz'. submit_answer choice_key quiz = Inr quiz' \<and> cluster quiz' = cluster quiz"
  using assms by (simp add: submit_answer_def Let_def)

theorem submit_answer_weak_only_cluster_witness:
  "mode ex_weak_loaded = ''weak_only'' \<and>
   current_question ex_weak_loaded = Some (1, mk_question ''Mathematics'' 5 '' b '') \<and>
   cluster ex_weak_loaded = 5 \<and>
   (\<exists>quiz'. submit_answer ''B'' ex_weak_loaded = Inr quiz' \<and> cluster quiz' = 5 \<and> score quiz' = 1)"
proof -
  have md: "mode ex_weak_loaded = ''weak_only''"
    and loaded: "current_question ex_weak_loaded = Some (1, mk_question ''Mathematics'' 5 '' b '')"
    and cl: "cluster ex_weak_loaded = 5"
    by (simp_all add: ex_defs code_defs)
  have sc: "map_sum id score (submit_answer ''B'' ex_weak_loaded) = Inr 1"
    by (simp add: ex_defs code_defs)
  from submit_answer_weak_only_cluster[OF md loaded, of "''B''"] md loaded cl sc
  show ?thesis by auto
qed

subsection \<open>No question twice\<close>

text \<open>A successful selection takes a label that was not used before and appends it.\<close>

lemma load_next_question_marks_used:
  assumes "load_next_question df_all r1 r2 quiz = (True, quiz')"
  shows "\<exists>p \<in> set (candidate_pool df_all r1 quiz).
           current_question quiz' = Some p \<and> fst p \<notin> set (used_indices quiz) \<and>
           used_indices quiz' = used_indices quiz @ [fst p]"
proof -
  let ?pool = "candidate_pool df_all r1 quiz"
  from assms have ne: "?pool \<noteq> []"
    by (auto simp: load_next_question_eq Let_def split: if_splits)
  then have mem: "random_choice r2 ?pool \<in> set ?pool"
    by (rule random_choice_in)
  then have "fst (random_choice r2 ?pool) \<notin> set (used_indices quiz)"
    by (intro unused_rows_fresh[of _ df_all] candidate_pool_unused[of _ df_all r1])
  with assms ne mem show ?thesis
    by (auto simp: load_next_question_eq Let_def)
qed

text \<open>A failed selection leaves the used labels and the current question alone.\<close>

lemma load_next_question_False:
  assumes "load_next_question df_all r1 r2 quiz = (False, quiz')"
  shows "used_indices quiz' = used_indices quiz"
    and "current_question quiz' = current_question quiz"
  using assms by (auto simp: load_next_question_eq Let_def split: if_splits)

lemma candidate_pool_rows:
  "p \<in> set (candidate_pool df_all r1 quiz) \<Longrightarrow> p \<in> set (df_subj_of df_all (subject quiz))"
  by (drule candidate_pool_unused) (simp add: unused_rows_def)

text \<open>The labels of the rows of a subject identify the rows.\<close>

lemma df_subj_of_labels:
  "distinct (map fst (df_subj_of df_all subj))"
  by (simp add: df_subj_of_def)

text \<open>What one step presents is what it appends to the used labels.\<close>

lemma quiz_step_presented:
  assumes "quiz_step df_all ev quiz = Inr quiz'"
  shows "used_indices quiz' = used_indices quiz @ map fst (presented df_all ev quiz)"
    and "\<forall>p \<in> set (presented df_all ev quiz).
           fst p \<notin> set (used_indices quiz) \<and> p \<in> set (df_subj_of df_all (subject quiz))"
    and "length (presented df_all ev quiz) \<le> 1"
proof -
  have "used_indices quiz' = used_indices quiz @ map fst (presented df_all ev quiz) \<and>
        (\<forall>p \<in> set (presented df_all ev quiz).
           fst p \<notin> set (used_indices quiz) \<and> p \<in> set (df_subj_of df_all (subject quiz))) \<and>
        length (presented df_all ev quiz) \<le> 1"
  proof (cases ev)
    case (Load r1 r2)
    obtain ok quiz1 where l: "load_next_question df_all r1 r2 quiz = (ok, quiz1)"
      by (cases "load_next_question df_all r1 r2 quiz")
    show ?thesis
    proof (cases ok)
      case True
      with l have l': "load_next_question df_all r1 r2 quiz = (True, quiz1)"
        by simp
      from load_next_question_marks_used[OF l']
      obtain p where p: "p \<in> set (candidate_pool df_all r1 quiz)"
        "current_question quiz1 = Some p" "fst p \<notin> set (used_indices quiz)"
        "used_indices quiz1 = used_indices quiz @ [fst p]"
        by blast
      have "presented df_all ev quiz = [p]"
        using Load l True p(2) by (simp add: presented_def)
      moreover have "quiz' = quiz1"
        using assms Load l True by (simp add: quiz_step_def)
      ultimately show ?thesis
        using p candidate_pool_rows[OF p(1)] by simp
    next
      case False
      with l have "used_indices quiz1 = used_indices quiz"
        by (simp add: load_next_question_False(1))
      moreover have "presented df_all ev quiz = []"
        using Load l False by (simp add: presented_def)
      moreover have "quiz' = finish_and_record quiz1"
        using assms Load l False by (simp add: quiz_step_def)
      ultimately show ?thesis
        by (simp add: finish_and_record_def)
    qed
  next
    case (Submit choice_key)
    with assms show ?thesis
      by (simp add: quiz_step_def presented_def submit_answer_frame(4))
  next
    case Next
    with assms show ?thesis
      by (auto simp: quiz_step_def presented_def next_question_frame)
  qed
  then show "used_indices quiz' = used_indices quiz @ map fst (presented df_all ev quiz)"
    and "\<forall>p \<in> set (presented df_all ev quiz).
           fst p \<notin> set (used_indices quiz) \<and> p \<in> set (df_subj_of df_all (subject quiz))"
    and "length (presented df_all ev quiz) \<le> 1"
    by simp_all
qed

lemma presented_Inl:
  "quiz_step df_all ev quiz = Inl e \<Longrightarrow> presented df_all ev quiz = []"
  by (cases ev) (auto simp: quiz_step_def presented_def split: prod.splits)

lemma trace_last_Cons:
  "last (trace df_all (ev # evs) quiz) =
     (case quiz_step df_all ev quiz of Inl e \<Rightarrow> quiz | Inr quiz' \<Rightarrow> last (trace df_all evs quiz'))"
  by (cases "quiz_step df_all ev quiz") (simp_all add: trace_nonempty)

text \<open>
  The used labels at the end of a run are the used labels at its start followed by the
  labels of the questions the run presented, and no label occurs twice.
\<close>

lemma selections_used:
  assumes "distinct (used_indices quiz)"
  shows "used_indices (last (trace df_all evs quiz)) =
           used_indices quiz @ map fst (selections df_all evs quiz) \<and>
         distinct (used_indices quiz @ map fst (selections df_all evs quiz)) \<and>
         set (selections df_all evs quiz) \<subseteq> set (df_subj_of df_all (subject quiz))"
  using assms
proof (induction evs arbitrary: quiz)
  case Nil
  then show ?case by simp
next
  case (Cons ev evs)
  show ?case
  proof (cases "quiz_step df_all ev quiz")
    case (Inl e)
    with Cons.prems show ?thesis
      by (simp add: presented_Inl)
  next
    case (Inr quiz')
    note step = quiz_step_presented[OF Inr]
    have d': "distinct (used_indices quiz')"
      using Inr Cons.prems by (rule quiz_step_used)
    have subj: "subject quiz' = subject quiz"
      using quiz_step_frame(2)[OF Inr] .
    from Cons.IH[OF d'] subj
    have IH: "used_indices (last (trace df_all evs quiz')) =
                used_indices quiz' @ map fst (selections df_all evs quiz')"
      "distinct (used_indices quiz' @ map fst (selections df_all evs quiz'))"
      "set (selections df_all evs quiz') \<subseteq> set (df_subj_of df_all (subject quiz))"
      by simp_all
    have sel: "selections df_all (ev # evs) quiz =
                 presented df_all ev quiz @ selections df_all evs quiz'"
      using Inr by simp
    have last: "last (trace df_all (ev # evs) quiz) = last (trace df_all evs quiz')"
      using Inr trace_nonempty[of df_all evs quiz'] by simp
    have "used_indices (last (trace df_all (ev # evs) quiz)) =
            used_indices quiz @ map fst (selections df_all (ev # evs) quiz)"
      unfolding last sel using IH(1) step(1) by simp
    moreover have "distinct (used_indices quiz @ map fst (selections df_all (ev # evs) quiz))"
      unfolding sel using IH(2) step(1) by simp
    moreover have "set (selections df_all (ev # evs) quiz) \<subseteq> set (df_subj_of df_all (subject quiz))"
      unfolding sel using IH(3) step(2) by auto
    ultimately show ?thesis by blast
  qed
qed

text \<open>In every state of a run the current question carries a used label.\<close>

lemma quiz_step_current_used:
  assumes "quiz_step df_all ev quiz = Inr quiz'"
    and "\<forall>p. current_question quiz = Some p \<longrightarrow> fst p \<in> set (used_indices quiz)"
  shows "\<forall>p. current_question quiz' = Some p \<longrightarrow> fst p \<in> set (used_indices quiz')"
proof (cases ev)
  case (Load r1 r2)
  obtain ok quiz1 where l: "load_next_question df_all r1 r2 quiz = (ok, quiz1)"
    by (cases "load_next_question df_all r1 r2 quiz")
  show ?thesis
  proof (cases ok)
    case True
    with l load_next_question_marks_used[of df_all r1 r2 quiz quiz1]
    have "\<forall>p. current_question quiz1 = Some p \<longrightarrow> fst p \<in> set (used_indices quiz1)"
      by auto
    moreover have "quiz' = quiz1"
      using assms(1) Load l True by (simp add: quiz_step_def)
    ultimately show ?thesis by simp
  next
    case False
    with l have "used_indices quiz1 = used_indices quiz" "current_question quiz1 = current_question quiz"
      by (simp_all add: load_next_question_False)
    moreover have "quiz' = finish_and_record quiz1"
      using assms(1) Load l False by (simp add: quiz_step_def)
    ultimately show ?thesis
      using assms(2) by (simp add: finish_and_record_def)
  qed
next
  case (Submit choice_key)
  with assms(1) have sub: "submit_answer choice_key quiz = Inr quiz'"
    by (simp add: quiz_step_def)
  then have "current_question quiz' = current_question quiz"
    by (auto simp: submit_answer_def Let_def split: option.splits if_splits)
  with submit_answer_frame(4)[OF sub] assms(2) show ?thesis by simp
next
  case Next
  with assms(1) have "current_question quiz' = None"
    by (auto simp: quiz_step_def next_question_def finish_and_record_def Let_def)
  then show ?thesis by simp
qed

text \<open>
  C4. Take any session (any subject, mode, candidate list) and any run of selections,
  answers and advances from its fresh state. The questions the run presents have
  pairwise different labels, each is a row of the session's subject, and their labels,
  in order, are exactly the used labels at the end of the run: no question is selected
  twice. In every state of the run the used labels have no duplicate and the current
  question carries a used label; and every selection that succeeds from such a state
  presents a row of its candidate pool whose label was not used before, and appends
  that label to the used labels.
\<close>

theorem used_indices_distinct:
  "distinct (map fst (selections df_all evs (reset_quiz_state subj total_q md wol timer now))) \<and>
   used_indices (last (trace df_all evs (reset_quiz_state subj total_q md wol timer now))) =
     map fst (selections df_all evs (reset_quiz_state subj total_q md wol timer now)) \<and>
   set (selections df_all evs (reset_quiz_state subj total_q md wol timer now))
     \<subseteq> set (df_subj_of df_all subj) \<and>
   (\<forall>s \<in> set (trace df_all evs (reset_quiz_state subj total_q md wol timer now)).
      distinct (used_indices s) \<and>
      (\<forall>p. current_question s = Some p \<longrightarrow> fst p \<in> set (used_indices s)) \<and>
      (\<forall>r1 r2 s'. load_next_question df_all r1 r2 s = (True, s') \<longrightarrow>
         (\<exists>p \<in> set (candidate_pool df_all r1 s).
            current_question s' = Some p \<and> fst p \<notin> set (used_indices s) \<and>
            used_indices s' = used_indices s @ [fst p])))"
proof -
  let ?s0 = "reset_quiz_state subj total_q md wol timer now"
  have used0: "used_indices ?s0 = []" and subj0: "subject ?s0 = subj"
    and cur0: "current_question ?s0 = None"
    by (simp_all add: reset_quiz_state_def Let_def)
  have "distinct (used_indices ?s0)"
    by (simp add: used0)
  from selections_used[OF this, of df_all evs]
  have run: "distinct (map fst (selections df_all evs ?s0))"
    "used_indices (last (trace df_all evs ?s0)) = map fst (selections df_all evs ?s0)"
    "set (selections df_all evs ?s0) \<subseteq> set (df_subj_of df_all subj)"
    by (simp_all add: used0 subj0)
  have inv: "\<forall>s \<in> set (trace df_all evs ?s0).
      distinct (used_indices s) \<and>
      (\<forall>p. current_question s = Some p \<longrightarrow> fst p \<in> set (used_indices s))"
  proof (rule trace_invariant)
    show "distinct (used_indices ?s0) \<and>
      (\<forall>p. current_question ?s0 = Some p \<longrightarrow> fst p \<in> set (used_indices ?s0))"
      by (simp add: used0 cur0)
  next
    fix ev s s'
    assume "distinct (used_indices s) \<and>
        (\<forall>p. current_question s = Some p \<longrightarrow> fst p \<in> set (used_indices s))"
      and "quiz_step df_all ev s = Inr s'"
    then show "distinct (used_indices s') \<and>
        (\<forall>p. current_question s' = Some p \<longrightarrow> fst p \<in> set (used_indices s'))"
      using quiz_step_used quiz_step_current_used by blast
  qed
  have sel: "\<forall>s r1 r2 s'. load_next_question df_all r1 r2 s = (True, s') \<longrightarrow>
         (\<exists>p \<in> set (candidate_pool df_all r1 s).
            current_question s' = Some p \<and> fst p \<notin> set (used_indices s) \<and>
            used_indices s' = used_indices s @ [fst p])"
    using load_next_question_marks_used by blast
  from run inv sel show ?thesis by blast
qed

theorem used_indices_distinct_witness:
  "selections ex_bank ex_correct_run ex_fresh =
     [(0, mk_question ''Mathematics'' 4 ''A''), (1, mk_question ''Mathematics'' 5 '' b '')] \<and>
   distinct (map fst (selections ex_bank ex_correct_run ex_fresh)) \<and>
   used_indices (last (trace ex_bank ex_correct_run ex_fresh)) = [0, 1] \<and>
   distinct (used_indices (last (trace ex_bank ex_correct_run ex_fresh))) \<and>
   load_next_question ex_bank 0 0 ex_loaded =
     (True, ex_loaded\<lparr>current_question := Some (1, mk_question ''Mathematics'' 5 '' b ''),
                      used_indices := [0, 1]\<rparr>)"
proof -
  have sels: "selections ex_bank ex_correct_run ex_fresh =
     [(0, mk_question ''Mathematics'' 4 ''A''), (1, mk_question ''Mathematics'' 5 '' b '')]"
    by (simp add: ex_defs code_defs presented_def)
  have mem: "last (trace ex_bank ex_correct_run ex_fresh) \<in> set (trace ex_bank ex_correct_run ex_fresh)"
    by (simp add: trace_nonempty)
  have again: "load_next_question ex_bank 0 0 ex_loaded =
     (True, ex_loaded\<lparr>current_question := Some (1, mk_question ''Mathematics'' 5 '' b ''),
                      used_indices := [0, 1]\<rparr>)"
    by (simp add: ex_defs code_defs)
  from used_indices_distinct[of ex_bank ex_correct_run "''Mathematics''" 3 "''normal''" None True 0]
  have "distinct (map fst (selections ex_bank ex_correct_run ex_fresh))"
    and "used_indices (last (trace ex_bank ex_correct_run ex_fresh)) =
           map fst (selections ex_bank ex_correct_run ex_fresh)"
    and "\<forall>s \<in> set (trace ex_bank ex_correct_run ex_fresh). distinct (used_indices s)"
    unfolding ex_fresh_def by blast+
  with sels mem again show ?thesis by simp
qed

subsection \<open>The cluster in normal mode\<close>

text \<open>One step of a round in normal mode whose answer, if any, is correct.\<close>

lemma quiz_step_correct_up:
  assumes "quiz_step df_all ev quiz = Inr quiz'"
    and "answers_all True df_all (ev # evs) quiz"
    and "mode quiz = ''normal''"
    and "\<forall>lim. CLUSTER_LIMITS (subject quiz) = Some lim \<longrightarrow> cluster quiz \<le> lim"
  shows "cluster quiz \<le> cluster quiz'"
    and "\<forall>lim. CLUSTER_LIMITS (subject quiz) = Some lim \<longrightarrow> cluster quiz' \<le> lim"
proof -
  have "cluster quiz \<le> cluster quiz' \<and>
        (\<forall>lim. CLUSTER_LIMITS (subject quiz) = Some lim \<longrightarrow> cluster quiz' \<le> lim)"
  proof (cases ev)
    case (Load r1 r2)
    with assms show ?thesis
      by (auto simp: quiz_step_def finish_and_record_def target_cluster_of_normal
          dest!: load_next_question_frame(5) split: prod.splits if_splits)
  next
    case (Submit choice_key)
    with assms show ?thesis
      by (auto simp: quiz_step_def submit_answer_def get_or_def Let_def
          split: option.splits if_splits)
  next
    case Next
    with assms show ?thesis
      by (auto simp: quiz_step_def next_question_frame)
  qed
  then show "cluster quiz \<le> cluster quiz'"
    and "\<forall>lim. CLUSTER_LIMITS (subject quiz) = Some lim \<longrightarrow> cluster quiz' \<le> lim"
    by simp_all
qed

text \<open>The same for a wrong answer.\<close>

lemma quiz_step_wrong_down:
  assumes "quiz_step df_all ev quiz = Inr quiz'"
    and "answers_all False df_all (ev # evs) quiz"
    and "mode quiz = ''normal''"
    and "MIN_CLUSTER \<le> cluster quiz"
  shows "cluster quiz' \<le> cluster quiz" and "MIN_CLUSTER \<le> cluster quiz'"
proof -
  have "cluster quiz' \<le> cluster quiz \<and> MIN_CLUSTER \<le> cluster quiz'"
  proof (cases ev)
    case (Load r1 r2)
    with assms show ?thesis
      by (auto simp: quiz_step_def finish_and_record_def target_cluster_of_normal
          dest!: load_next_question_frame(5) split: prod.splits if_splits)
  next
    case (Submit choice_key)
    with assms show ?thesis
      by (auto simp: quiz_step_def submit_answer_def Let_def
          split: option.splits if_splits)
  next
    case Next
    with assms show ?thesis
      by (auto simp: quiz_step_def next_question_frame)
  qed
  then show "cluster quiz' \<le> cluster quiz" and "MIN_CLUSTER \<le> cluster quiz'"
    by simp_all
qed

lemma correct_run_nondecreasing:
  assumes "answers_all True df_all evs quiz"
    and "mode quiz = ''normal''"
    and "\<forall>lim. CLUSTER_LIMITS (subject quiz) = Some lim \<longrightarrow> cluster quiz \<le> lim"
  shows "sorted_wrt (\<le>) (map cluster (trace df_all evs quiz)) \<and>
         (\<forall>s \<in> set (trace df_all evs quiz).
            \<forall>lim. CLUSTER_LIMITS (subject quiz) = Some lim \<longrightarrow> cluster s \<le> lim)"
  using assms
proof (induction evs arbitrary: quiz)
  case Nil
  then show ?case by simp
next
  case (Cons ev evs)
  show ?case
  proof (cases "quiz_step df_all ev quiz")
    case (Inl e)
    with Cons.prems show ?thesis by simp
  next
    case (Inr quiz')
    note step = quiz_step_correct_up[OF Inr Cons.prems(1) Cons.prems(2) Cons.prems(3)]
    have subj: "subject quiz' = subject quiz" and md: "mode quiz' = ''normal''"
      using quiz_step_frame[OF Inr] Cons.prems(2) by simp_all
    have rest: "answers_all True df_all evs quiz'"
      using Cons.prems(1) Inr by simp
    have IH: "sorted_wrt (\<le>) (map cluster (trace df_all evs quiz')) \<and>
         (\<forall>s \<in> set (trace df_all evs quiz').
            \<forall>lim. CLUSTER_LIMITS (subject quiz) = Some lim \<longrightarrow> cluster s \<le> lim)"
      using Cons.IH[OF rest md] step(2) subj by simp
    obtain rest_states where tr: "trace df_all evs quiz' = quiz' # rest_states"
      using trace_Cons by blast
    have "\<forall>s \<in> set (trace df_all evs quiz'). cluster quiz \<le> cluster s"
      using IH step(1) unfolding tr by auto
    with IH Inr Cons.prems(3) show ?thesis by simp
  qed
qed

lemma wrong_run_nonincreasing:
  assumes "answers_all False df_all evs quiz"
    and "mode quiz = ''normal''"
    and "MIN_CLUSTER \<le> cluster quiz"
  shows "sorted_wrt (\<ge>) (map cluster (trace df_all evs quiz)) \<and>
         (\<forall>s \<in> set (trace df_all evs quiz). MIN_CLUSTER \<le> cluster s)"
  using assms
proof (induction evs arbitrary: quiz)
  case Nil
  then show ?case by simp
next
  case (Cons ev evs)
  show ?case
  proof (cases "quiz_step df_all ev quiz")
    case (Inl e)
    with Cons.prems show ?thesis by simp
  next
    case (Inr quiz')
    note step = quiz_step_wrong_down[OF Inr Cons.prems(1) Cons.prems(2) Cons.prems(3)]
    have md: "mode quiz' = ''normal''"
      using quiz_step_frame[OF Inr] Cons.prems(2) by simp
    have rest: "answers_all False df_all evs quiz'"
      using Cons.prems(1) Inr by simp
    note IH = Cons.IH[OF rest md step(2)]
    obtain rest_states where tr: "trace df_all evs quiz' = quiz' # rest_states"
      using trace_Cons by blast
    have "\<forall>s \<in> set (trace df_all evs quiz'). cluster s \<le> cluster quiz"
      using IH step(1) unfolding tr by auto
    with IH Inr Cons.prems(3) show ?thesis by simp
  qed
qed

text \<open>
  Every state of every round in normal mode has its cluster in the range the theorem
  below starts from: at least \<open>MIN_CLUSTER\<close>, and at most the limit of the subject when
  the subject has one.
\<close>

lemma reset_quiz_state_in_range:
  "MIN_CLUSTER \<le> cluster (reset_quiz_state subj total_q ''normal'' wol timer now) \<and>
   (\<forall>lim. CLUSTER_LIMITS subj = Some lim \<longrightarrow>
      cluster (reset_quiz_state subj total_q ''normal'' wol timer now) \<le> lim)"
  by (auto simp: reset_quiz_state_def Let_def get_or_def MIN_CLUSTER_def CLUSTER_LIMITS_def)

lemma quiz_step_in_range:
  assumes "quiz_step df_all ev quiz = Inr quiz'"
    and "mode quiz = ''normal''"
    and "MIN_CLUSTER \<le> cluster quiz"
    and "\<forall>lim. CLUSTER_LIMITS (subject quiz) = Some lim \<longrightarrow> cluster quiz \<le> lim"
  shows "MIN_CLUSTER \<le> cluster quiz' \<and>
         (\<forall>lim. CLUSTER_LIMITS (subject quiz) = Some lim \<longrightarrow> cluster quiz' \<le> lim)"
proof (cases ev)
  case (Load r1 r2)
  with assms show ?thesis
    by (auto simp: quiz_step_def finish_and_record_def target_cluster_of_normal
        dest!: load_next_question_frame(5) split: prod.splits if_splits)
next
  case (Submit choice_key)
  with assms show ?thesis
    by (auto simp: quiz_step_def submit_answer_def get_or_def Let_def MIN_CLUSTER_def
        split: option.splits if_splits)
next
  case Next
  with assms show ?thesis
    by (auto simp: quiz_step_def next_question_frame)
qed

lemma normal_round_in_range:
  "\<forall>s \<in> set (trace df_all evs (reset_quiz_state subj total_q ''normal'' wol timer now)).
     mode s = ''normal'' \<and> subject s = subj \<and> MIN_CLUSTER \<le> cluster s \<and>
     (\<forall>lim. CLUSTER_LIMITS subj = Some lim \<longrightarrow> cluster s \<le> lim)"
proof (rule trace_invariant)
  show "mode (reset_quiz_state subj total_q ''normal'' wol timer now) = ''normal'' \<and>
        subject (reset_quiz_state subj total_q ''normal'' wol timer now) = subj \<and>
        MIN_CLUSTER \<le> cluster (reset_quiz_state subj total_q ''normal'' wol timer now) \<and>
        (\<forall>lim. CLUSTER_LIMITS subj = Some lim \<longrightarrow>
           cluster (reset_quiz_state subj total_q ''normal'' wol timer now) \<le> lim)"
    using reset_quiz_state_in_range[of subj total_q wol timer now]
    by (simp add: reset_quiz_state_def Let_def)
next
  fix ev s s'
  assume inv: "mode s = ''normal'' \<and> subject s = subj \<and> MIN_CLUSTER \<le> cluster s \<and>
     (\<forall>lim. CLUSTER_LIMITS subj = Some lim \<longrightarrow> cluster s \<le> lim)"
    and step: "quiz_step df_all ev s = Inr s'"
  from quiz_step_in_range[OF step] inv quiz_step_frame[OF step]
  show "mode s' = ''normal'' \<and> subject s' = subj \<and> MIN_CLUSTER \<le> cluster s' \<and>
     (\<forall>lim. CLUSTER_LIMITS subj = Some lim \<longrightarrow> cluster s' \<le> lim)"
    by simp
qed

text \<open>
  A subject without an entry in \<open>CLUSTER_LIMITS\<close> has no maximum: a correct answer
  always raises the cluster by one.
\<close>

lemma submit_answer_no_limit:
  assumes "current_question quiz = Some q" and "mode quiz = ''normal''"
    and "CLUSTER_LIMITS (subject quiz) = None"
    and "choice_key = upper (strip (correct_answer (snd q)))"
  shows "\<exists>quiz'. submit_answer choice_key quiz = Inr quiz' \<and> cluster quiz' = cluster quiz + 1"
  using assms by (simp add: submit_answer_def Let_def get_or_def)

text \<open>
  C5 (as the code has it). Take any state of any round in normal mode. Along every run
  from it in which all submitted answers are correct, the current cluster never
  decreases, and it never exceeds the subject's maximum cluster when the subject has an
  entry in \<open>CLUSTER_LIMITS\<close> (English and Mathematics); for a subject without an entry
  there is no maximum, and every correct answer raises the cluster by one. Along every
  run in which all submitted answers are incorrect, the cluster never increases and
  never falls below \<open>MIN_CLUSTER\<close>, for every subject.
\<close>

theorem cluster_monotone_normal:
  assumes "quiz \<in> set (trace df_all evs0 (reset_quiz_state subj total_q ''normal'' wol timer now))"
  shows "(answers_all True df_all evs quiz \<longrightarrow>
            sorted_wrt (\<le>) (map cluster (trace df_all evs quiz)) \<and>
            (\<forall>s \<in> set (trace df_all evs quiz).
               \<forall>lim. CLUSTER_LIMITS subj = Some lim \<longrightarrow> cluster s \<le> lim)) \<and>
         (answers_all False df_all evs quiz \<longrightarrow>
            sorted_wrt (\<ge>) (map cluster (trace df_all evs quiz)) \<and>
            (\<forall>s \<in> set (trace df_all evs quiz). MIN_CLUSTER \<le> cluster s)) \<and>
         (CLUSTER_LIMITS subj = None \<longrightarrow>
            (\<forall>q. current_question quiz = Some q \<longrightarrow>
               map_sum id cluster (submit_answer (upper (strip (correct_answer (snd q)))) quiz) =
                 Inr (cluster quiz + 1)))"
proof -
  from assms normal_round_in_range[of df_all evs0 subj total_q wol timer now]
  have md: "mode quiz = ''normal''" and subj: "subject quiz = subj"
    and lo: "MIN_CLUSTER \<le> cluster quiz"
    and hi: "\<forall>lim. CLUSTER_LIMITS (subject quiz) = Some lim \<longrightarrow> cluster quiz \<le> lim"
    by auto
  have "\<forall>q. CLUSTER_LIMITS subj = None \<longrightarrow> current_question quiz = Some q \<longrightarrow>
          map_sum id cluster (submit_answer (upper (strip (correct_answer (snd q)))) quiz) =
            Inr (cluster quiz + 1)"
  proof (intro allI impI)
    fix q
    assume "CLUSTER_LIMITS subj = None" and q: "current_question quiz = Some q"
    then have "CLUSTER_LIMITS (subject quiz) = None"
      by (simp add: subj)
    from submit_answer_no_limit[OF q md this refl]
    show "map_sum id cluster (submit_answer (upper (strip (correct_answer (snd q)))) quiz) =
            Inr (cluster quiz + 1)"
      by auto
  qed
  with correct_run_nondecreasing[OF _ md hi, of df_all evs]
    wrong_run_nonincreasing[OF _ md lo, of df_all evs] subj
  show ?thesis by simp
qed

theorem cluster_monotone_normal_witness:
  "ex_fresh \<in> set (trace ex_bank [] ex_fresh) \<and> CLUSTER_LIMITS ''Mathematics'' = Some 8 \<and>
   answers_all True ex_bank ex_correct_run ex_fresh \<and>
   map cluster (trace ex_bank ex_correct_run ex_fresh) = [4, 4, 5, 5, 5, 6] \<and>
   sorted_wrt (\<le>) (map cluster (trace ex_bank ex_correct_run ex_fresh)) \<and>
   cluster (last (trace ex_bank ex_correct_run ex_fresh)) \<le> 8 \<and>
   answers_all False ex_bank ex_wrong_run ex_fresh \<and>
   map cluster (trace ex_bank ex_wrong_run ex_fresh) = [4, 4, 3, 3, 3, 2] \<and>
   sorted_wrt (\<ge>) (map cluster (trace ex_bank ex_wrong_run ex_fresh)) \<and>
   MIN_CLUSTER \<le> cluster (last (trace ex_bank ex_wrong_run ex_fresh)) \<and>
   CLUSTER_LIMITS ''Physics'' = None \<and>
   current_question ex_physics_loaded = Some (0, mk_question ''Physics'' 3 ''A'') \<and>
   cluster ex_physics_loaded = 3 \<and>
   map_sum id cluster (submit_answer ''A'' ex_physics_loaded) = Inr 4"
proof -
  have start: "ex_fresh \<in> set (trace ex_bank [] (reset_quiz_state ''Mathematics'' 3 ''normal'' None True 0))"
    by (simp add: ex_fresh_def)
  have lim: "CLUSTER_LIMITS ''Mathematics'' = Some 8"
    by (simp add: CLUSTER_LIMITS_def)
  have unlisted: "CLUSTER_LIMITS ''Physics'' = None"
    by (simp add: CLUSTER_LIMITS_def)
  have loaded: "current_question ex_physics_loaded = Some (0, mk_question ''Physics'' 3 ''A'')"
    and at3: "cluster ex_physics_loaded = 3"
    by (simp_all add: ex_defs code_defs)
  have right: "answers_all True ex_bank ex_correct_run ex_fresh"
    by (simp add: ex_defs code_defs)
  have wrong: "answers_all False ex_bank ex_wrong_run ex_fresh"
    by (simp add: ex_defs code_defs)
  have up: "map cluster (trace ex_bank ex_correct_run ex_fresh) = [4, 4, 5, 5, 5, 6]"
    by (simp add: ex_defs code_defs)
  have down: "map cluster (trace ex_bank ex_wrong_run ex_fresh) = [4, 4, 3, 3, 3, 2]"
    by (simp add: ex_defs code_defs)
  have last_up: "last (trace ex_bank ex_correct_run ex_fresh) \<in> set (trace ex_bank ex_correct_run ex_fresh)"
    and last_down: "last (trace ex_bank ex_wrong_run ex_fresh) \<in> set (trace ex_bank ex_wrong_run ex_fresh)"
    by (simp_all add: trace_nonempty)
  from cluster_monotone_normal[OF start, of ex_correct_run] right lim last_up
  have "sorted_wrt (\<le>) (map cluster (trace ex_bank ex_correct_run ex_fresh)) \<and>
        cluster (last (trace ex_bank ex_correct_run ex_fresh)) \<le> 8"
    by blast
  moreover from cluster_monotone_normal[OF start, of ex_wrong_run] wrong last_down
  have "sorted_wrt (\<ge>) (map cluster (trace ex_bank ex_wrong_run ex_fresh)) \<and>
        MIN_CLUSTER \<le> cluster (last (trace ex_bank ex_wrong_run ex_fresh))"
    by blast
  moreover have "map_sum id cluster (submit_answer ''A'' ex_physics_loaded) = Inr 4"
  proof -
    have reach: "ex_physics_loaded \<in> set (trace ex_physics_bank [Load 0 0]
                   (reset_quiz_state ''Physics'' 5 ''normal'' None True 0))"
      by (simp add: ex_defs code_defs)
    have key: "upper (strip (correct_answer (snd (0::nat, mk_question ''Physics'' 3 ''A'')))) = ''A''"
      by (simp add: ex_defs code_defs)
    from cluster_monotone_normal[OF reach, of "[]"] unlisted loaded key at3
    show ?thesis by auto
  qed
  ultimately show ?thesis
    using lim right wrong up down unlisted loaded at3 by (simp add: ex_fresh_def)
qed

text \<open>
  C5 as stated fails for a subject without an entry in \<open>CLUSTER_LIMITS\<close>. The maximum
  that \<open>reset_quiz_state\<close> takes for such a subject is 6; a round of Physics starts at
  cluster 3, and four correct answers take it to cluster 7.
\<close>

theorem cluster_unlisted_subject_counterexample:
  "get_or CLUSTER_LIMITS ''Physics'' 6 = 6 \<and>
   mode ex_physics_fresh = ''normal'' \<and> subject ex_physics_fresh = ''Physics'' \<and>
   answers_all True ex_physics_bank ex_physics_run ex_physics_fresh \<and>
   map cluster (trace ex_physics_bank ex_physics_run ex_physics_fresh) =
     [3, 3, 4, 4, 4, 5, 5, 5, 6, 6, 6, 7]"
  by (simp add: ex_defs code_defs)

subsection \<open>The cluster in weak-only mode\<close>

lemma fold_update_keys:
  "fst ` set (fold (\<lambda>c d. AList.update c v d) cs d0) = set cs \<union> fst ` set d0"
  by (induction cs arbitrary: d0) (auto simp: dom_update)

lemma submit_answer_keys:
  assumes "submit_answer choice_key quiz = Inr quiz'"
  shows "fst ` set (weak_clusters quiz') \<subseteq> insert (cluster quiz) (fst ` set (weak_clusters quiz))"
proof -
  obtain q where q: "current_question quiz = Some q"
    using assms by (cases "current_question quiz") (simp_all add: submit_answer_def)
  show ?thesis
  proof (cases "choice_key = upper (strip (correct_answer (snd q)))")
    case True
    with assms q have "weak_clusters quiz' = weak_clusters quiz"
      by (auto simp: submit_answer_def Let_def)
    then show ?thesis by auto
  next
    case False
    with assms q have "weak_clusters quiz' =
        AList.update (cluster quiz) (get_or (map_of (weak_clusters quiz)) (cluster quiz) 0 + 1)
          (weak_clusters quiz)"
      by (auto simp: submit_answer_def Let_def)
    then show ?thesis by (simp add: dom_update)
  qed
qed

lemma submit_answer_not_normal:
  assumes "submit_answer choice_key quiz = Inr quiz'" and "mode quiz \<noteq> ''normal''"
  shows "cluster quiz' = cluster quiz"
  using assms by (auto simp: submit_answer_def Let_def split: option.splits if_splits)

text \<open>A selection of a weak-only round ends with the cluster among the candidates.\<close>

lemma load_next_question_weak_member:
  assumes "weak_active quiz" and "load_next_question df_all r1 r2 quiz = (ok, quiz')"
  shows "cluster quiz' \<in> set (weak_only_list quiz)"
proof -
  have "cluster quiz' = target_cluster_of r1 quiz"
    using assms(2) by (rule load_next_question_frame(5))
  then show ?thesis
    using target_cluster_of_weak[OF assms(1), of r1] by simp
qed

lemma finish_and_record_frame:
  "cluster (finish_and_record quiz) = cluster quiz"
  "weak_clusters (finish_and_record quiz) = weak_clusters quiz"
  by (simp_all add: finish_and_record_def)

lemma quiz_step_weak_member:
  assumes "quiz_step df_all ev quiz = Inr quiz'"
    and "weak_active quiz"
    and "cluster quiz \<in> set (weak_only_list quiz)"
    and "fst ` set (weak_clusters quiz) \<subseteq> set (weak_only_list quiz)"
  shows "cluster quiz' \<in> set (weak_only_list quiz) \<and>
         fst ` set (weak_clusters quiz') \<subseteq> set (weak_only_list quiz)"
proof (cases ev)
  case (Load r1 r2)
  obtain ok quiz1 where l: "load_next_question df_all r1 r2 quiz = (ok, quiz1)"
    by (cases "load_next_question df_all r1 r2 quiz")
  have c1: "cluster quiz1 \<in> set (weak_only_list quiz)"
    using assms(2) l by (rule load_next_question_weak_member)
  have w1: "weak_clusters quiz1 = weak_clusters quiz"
    using l by (rule load_next_question_frame(4))
  have "quiz_step df_all (Load r1 r2) quiz = Inr (if ok then quiz1 else finish_and_record quiz1)"
    by (simp add: quiz_step_def l)
  with assms(1) Load have q': "quiz' = (if ok then quiz1 else finish_and_record quiz1)"
    by simp
  show ?thesis
  proof (cases ok)
    case True
    with q' c1 w1 assms(4) show ?thesis by simp
  next
    case False
    with q' c1 w1 assms(4) show ?thesis by (simp add: finish_and_record_frame)
  qed
next
  case (Submit choice_key)
  with assms(1) have sub: "submit_answer choice_key quiz = Inr quiz'"
    by (simp add: quiz_step_def)
  have "mode quiz \<noteq> ''normal''"
    using assms(2) by (simp add: weak_active_def)
  with sub have "cluster quiz' = cluster quiz"
    by (rule submit_answer_not_normal)
  moreover have "insert (cluster quiz) (fst ` set (weak_clusters quiz)) \<subseteq> set (weak_only_list quiz)"
    using assms(3,4) by simp
  with submit_answer_keys[OF sub]
  have "fst ` set (weak_clusters quiz') \<subseteq> set (weak_only_list quiz)"
    by (rule order_trans)
  ultimately show ?thesis
    using assms(3) by simp
next
  case Next
  with assms(1) have "quiz' = next_question quiz"
    by (simp add: quiz_step_def)
  with assms(3,4) show ?thesis
    by (simp add: next_question_frame)
qed

text \<open>
  C10. In \<^verbatim>\<open>weak_only\<close> mode with a non-empty candidate list: the session starts at
  the first candidate; in every state of every run the current cluster is a member of
  the candidate list and so is every key of the tally; from any state of that mode and
  list, a selection keeps a current cluster that is a member and replaces one that is
  not by a drawn member of the list, so that the cluster is a member afterwards; and
  \<open>submit_answer\<close> never moves the cluster and adds no tally key but the current
  cluster.
\<close>

theorem weak_only_cluster_member:
  assumes "wl \<noteq> []"
  shows "cluster (reset_quiz_state subj total_q ''weak_only'' (Some wl) timer now) = hd wl \<and>
         (\<forall>s \<in> set (trace df_all evs
                      (reset_quiz_state subj total_q ''weak_only'' (Some wl) timer now)).
            cluster s \<in> set wl \<and> fst ` set (weak_clusters s) \<subseteq> set wl) \<and>
         (\<forall>quiz r1 r2.
            mode quiz = ''weak_only'' \<and> weak_only_list quiz = wl \<longrightarrow>
              cluster (snd (load_next_question df_all r1 r2 quiz)) =
                (if cluster quiz \<in> set wl then cluster quiz else random_choice r1 wl) \<and>
              cluster (snd (load_next_question df_all r1 r2 quiz)) \<in> set wl) \<and>
         (\<forall>quiz choice_key quiz'.
            mode quiz = ''weak_only'' \<and> submit_answer choice_key quiz = Inr quiz' \<longrightarrow>
              cluster quiz' = cluster quiz \<and>
              fst ` set (weak_clusters quiz') \<subseteq>
                insert (cluster quiz) (fst ` set (weak_clusters quiz)))"
proof -
  let ?s0 = "reset_quiz_state subj total_q ''weak_only'' (Some wl) timer now"
  let ?inv = "\<lambda>s. (weak_active s \<and> weak_only_list s = wl) \<and>
                   cluster s \<in> set wl \<and> fst ` set (weak_clusters s) \<subseteq> set wl"
  obtain c cs where wl: "wl = c # cs"
    using assms by (cases wl) simp_all
  have first: "cluster ?s0 = hd wl"
    by (simp add: wl reset_quiz_state_def Let_def)
  have run: "\<forall>s \<in> set (trace df_all evs ?s0). ?inv s"
  proof (rule trace_invariant)
    have "fst ` set (weak_clusters ?s0) = set wl"
      by (simp add: reset_quiz_state_def Let_def fold_update_keys)
    with first assms show "?inv ?s0"
      by (simp add: reset_quiz_state_def Let_def weak_active_def)
  next
    fix ev s s'
    assume inv: "?inv s" and step: "quiz_step df_all ev s = Inr s'"
    from inv have act: "weak_active s" and cl: "cluster s \<in> set (weak_only_list s)"
      and keys: "fst ` set (weak_clusters s) \<subseteq> set (weak_only_list s)"
      and wl: "weak_only_list s = wl"
      by simp_all
    from quiz_step_weak_member[OF step act cl keys] quiz_step_frame[OF step] act wl
    show "?inv s'"
      by (simp add: weak_active_def)
  qed
  have load: "cluster (snd (load_next_question df_all r1 r2 quiz)) =
                (if cluster quiz \<in> set wl then cluster quiz else random_choice r1 wl) \<and>
              cluster (snd (load_next_question df_all r1 r2 quiz)) \<in> set wl"
    if "mode quiz = ''weak_only'' \<and> weak_only_list quiz = wl" for quiz r1 r2
  proof -
    obtain ok quiz1 where l: "load_next_question df_all r1 r2 quiz = (ok, quiz1)"
      by (cases "load_next_question df_all r1 r2 quiz")
    from that assms have act: "weak_active quiz"
      by (simp add: weak_active_def)
    have "cluster quiz1 = target_cluster_of r1 quiz"
      using l by (rule load_next_question_frame(5))
    with act that have "cluster quiz1 =
        (if cluster quiz \<in> set wl then cluster quiz else random_choice r1 wl)"
      by (simp add: target_cluster_of_def)
    moreover have "cluster quiz1 \<in> set wl"
      using load_next_question_weak_member[OF act l] that by simp
    ultimately show ?thesis
      by (simp add: l)
  qed
  have submit: "cluster quiz' = cluster quiz \<and>
              fst ` set (weak_clusters quiz') \<subseteq>
                insert (cluster quiz) (fst ` set (weak_clusters quiz))"
    if "mode quiz = ''weak_only'' \<and> submit_answer choice_key quiz = Inr quiz'"
    for quiz choice_key quiz'
  proof -
    from that have sub: "submit_answer choice_key quiz = Inr quiz'"
      and "mode quiz \<noteq> ''normal''"
      by simp_all
    then show ?thesis
      using submit_answer_not_normal[OF sub] submit_answer_keys[OF sub] by simp
  qed
  have inv_run: "\<forall>s \<in> set (trace df_all evs ?s0).
      cluster s \<in> set wl \<and> fst ` set (weak_clusters s) \<subseteq> set wl"
    using run by simp
  have load_all: "\<forall>quiz r1 r2.
            mode quiz = ''weak_only'' \<and> weak_only_list quiz = wl \<longrightarrow>
              cluster (snd (load_next_question df_all r1 r2 quiz)) =
                (if cluster quiz \<in> set wl then cluster quiz else random_choice r1 wl) \<and>
              cluster (snd (load_next_question df_all r1 r2 quiz)) \<in> set wl"
    using load by (intro allI impI)
  have submit_all: "\<forall>quiz choice_key quiz'.
            mode quiz = ''weak_only'' \<and> submit_answer choice_key quiz = Inr quiz' \<longrightarrow>
              cluster quiz' = cluster quiz \<and>
              fst ` set (weak_clusters quiz') \<subseteq>
                insert (cluster quiz) (fst ` set (weak_clusters quiz))"
    using submit by (intro allI impI)
  show ?thesis
    by (intro conjI first inv_run load_all submit_all)
qed

theorem weak_only_cluster_member_witness:
  "[5, 2] \<noteq> ([] :: int list) \<and> cluster ex_weak = 5 \<and>
   cluster (last (trace ex_bank ex_wrong_run ex_weak)) \<in> set [5, 2] \<and>
   fst ` set (weak_clusters (last (trace ex_bank ex_wrong_run ex_weak))) \<subseteq> set [5, 2] \<and>
   weak_clusters (last (trace ex_bank ex_wrong_run ex_weak)) = [(5, 2), (2, 0)] \<and>
   mode ex_weak_stray = ''weak_only'' \<and> weak_only_list ex_weak_stray = [5, 2] \<and>
   cluster ex_weak_stray = 9 \<and>
   cluster (snd (load_next_question ex_bank 1 0 ex_weak_stray)) = 2"
proof -
  have ne: "[5, 2] \<noteq> ([] :: int list)" by simp
  have mem: "last (trace ex_bank ex_wrong_run ex_weak) \<in> set (trace ex_bank ex_wrong_run ex_weak)"
    by (simp add: trace_nonempty)
  have tally: "weak_clusters (last (trace ex_bank ex_wrong_run ex_weak)) = [(5, 2), (2, 0)]"
    by (simp add: ex_defs code_defs)
  have stray: "mode ex_weak_stray = ''weak_only'' \<and> weak_only_list ex_weak_stray = [5, 2]"
    and out: "cluster ex_weak_stray = 9"
    by (simp_all add: ex_defs code_defs)
  have draw: "random_choice 1 [5, 2 :: int] = 2"
    by (simp add: random_choice_def)
  note inst = weak_only_cluster_member[OF ne, of "''Mathematics''" 3 True 0 ex_bank ex_wrong_run]
  from inst mem
  have "cluster ex_weak = hd [5, 2] \<and>
        cluster (last (trace ex_bank ex_wrong_run ex_weak)) \<in> set [5, 2] \<and>
        fst ` set (weak_clusters (last (trace ex_bank ex_wrong_run ex_weak))) \<subseteq> set [5, 2]"
    unfolding ex_weak_def by blast
  moreover from inst stray
  have "cluster (snd (load_next_question ex_bank 1 0 ex_weak_stray)) =
          (if cluster ex_weak_stray \<in> set [5, 2] then cluster ex_weak_stray
           else random_choice 1 [5, 2])"
    by blast
  ultimately show ?thesis
    using tally stray out draw by simp
qed

subsection \<open>Selecting the next question\<close>

text \<open>Every row of the candidate pool can be the one that is drawn.\<close>

lemma load_next_question_any_member:
  assumes "p \<in> set (candidate_pool df_all r1 quiz)"
  shows "\<exists>r2. current_question (snd (load_next_question df_all r1 r2 quiz)) = Some p"
proof -
  from assms obtain r2 where "random_choice r2 (candidate_pool df_all r1 quiz) = p"
    using random_choice_surj by fastforce
  moreover from assms have "candidate_pool df_all r1 quiz \<noteq> []"
    by auto
  ultimately have "current_question (snd (load_next_question df_all r1 r2 quiz)) = Some p"
    by (simp add: load_next_question_eq Let_def)
  then show ?thesis ..
qed

text \<open>
  C6 (as the code has it). The pool of a selection is the pool of the target cluster
  (the unused rows of the subject in that cluster) or, when that is empty, the widened
  pool: the unused rows whose cluster is a candidate in \<^verbatim>\<open>weak_only\<close> mode with a
  non-empty candidate list, and all unused rows of the subject otherwise (normal mode, or
  no candidates). With an empty pool the call returns \<open>False\<close> and sets no question:
  only the cluster may have been retargeted. Otherwise it returns \<open>True\<close>, and a row
  of the pool is the current question and its label is appended to the used labels.
\<close>

theorem load_next_question_pool:
  "(candidate_pool df_all r1 quiz = [] \<longrightarrow>
      load_next_question df_all r1 r2 quiz =
        (False, quiz\<lparr>cluster := target_cluster_of r1 quiz\<rparr>)) \<and>
   (candidate_pool df_all r1 quiz \<noteq> [] \<longrightarrow>
      (\<exists>p \<in> set (candidate_pool df_all r1 quiz).
         load_next_question df_all r1 r2 quiz =
           (True, quiz\<lparr>cluster := target_cluster_of r1 quiz,
                        current_question := Some p,
                        used_indices := used_indices quiz @ [fst p],
                        submitted := False,
                        feedback := []\<rparr>)))"
proof (cases "candidate_pool df_all r1 quiz = []")
  case True
  then show ?thesis by (simp add: load_next_question_eq Let_def)
next
  case False
  then have "random_choice r2 (candidate_pool df_all r1 quiz) \<in> set (candidate_pool df_all r1 quiz)"
    by (rule random_choice_in)
  moreover have "load_next_question df_all r1 r2 quiz =
      (True, quiz\<lparr>cluster := target_cluster_of r1 quiz,
                   current_question := Some (random_choice r2 (candidate_pool df_all r1 quiz)),
                   used_indices := used_indices quiz @ [fst (random_choice r2 (candidate_pool df_all r1 quiz))],
                   submitted := False,
                   feedback := []\<rparr>)"
    using False by (simp add: load_next_question_eq Let_def)
  ultimately show ?thesis using False by blast
qed

theorem load_next_question_pool_witness:
  "candidate_pool ex_sparse_bank 0 ex_widened = [] \<and>
   load_next_question ex_sparse_bank 0 0 ex_widened = (False, ex_widened) \<and>
   candidate_pool ex_bank 0 ex_fresh = [(0, mk_question ''Mathematics'' 4 ''A'')] \<and>
   fst (load_next_question ex_bank 0 0 ex_fresh) = True \<and>
   current_question (snd (load_next_question ex_bank 0 0 ex_fresh)) =
     Some (0, mk_question ''Mathematics'' 4 ''A'') \<and>
   used_indices (snd (load_next_question ex_bank 0 0 ex_fresh)) = [0]"
proof -
  have empty: "candidate_pool ex_sparse_bank 0 ex_widened = []"
    by (simp add: ex_defs code_defs pool_defs)
  have same: "ex_widened\<lparr>cluster := target_cluster_of 0 ex_widened\<rparr> = ex_widened"
    by (simp add: target_cluster_of_def weak_active_def ex_defs code_defs)
  have full: "candidate_pool ex_bank 0 ex_fresh = [(0, mk_question ''Mathematics'' 4 ''A'')]"
    by (simp add: ex_defs code_defs pool_defs)
  have used: "used_indices ex_fresh = []"
    by (simp add: ex_defs code_defs)
  from load_next_question_pool[of ex_sparse_bank 0 ex_widened 0] empty same
  have "load_next_question ex_sparse_bank 0 0 ex_widened = (False, ex_widened)"
    by simp
  moreover from load_next_question_pool[of ex_bank 0 ex_fresh 0] full used
  have "fst (load_next_question ex_bank 0 0 ex_fresh) = True \<and>
        current_question (snd (load_next_question ex_bank 0 0 ex_fresh)) =
          Some (0, mk_question ''Mathematics'' 4 ''A'') \<and>
        used_indices (snd (load_next_question ex_bank 0 0 ex_fresh)) = [0]"
    by auto
  ultimately show ?thesis using empty full by simp
qed

text \<open>
  C6 as stated fails in \<^verbatim>\<open>weak_only\<close> mode without candidates: the pool of the target
  cluster is empty and so is the pool of the rows whose cluster is a candidate, yet the
  call succeeds, with a row taken from all unused rows of the subject.
\<close>

theorem load_next_question_weak_empty_counterexample:
  "mode ex_weak_empty = ''weak_only'' \<and>
   cluster_pool ex_bank 0 ex_weak_empty = [] \<and>
   spec_widened_pool ex_bank ex_weak_empty = [] \<and>
   fst (load_next_question ex_bank 0 0 ex_weak_empty) = True \<and>
   current_question (snd (load_next_question ex_bank 0 0 ex_weak_empty)) =
     Some (0, mk_question ''English'' 5 ''C'')"
  by (simp add: ex_defs code_defs pool_defs)

subsection \<open>Creating a session\<close>

text \<open>
  The retry handler starts no round when no cluster has a positive miss count, and
  otherwise starts a weak-only round on exactly those clusters.
\<close>

lemma retry_weak_areas_None:
  "retry_weak_areas subj total_q timer now quiz = None \<longleftrightarrow>
     (\<forall>p \<in> set (weak_clusters quiz). snd p \<le> 0)"
  by (auto simp: retry_weak_areas_def Let_def filter_empty_conv not_less)

text \<open>
  C3 (as the code has it). \<open>reset_quiz_state\<close> never fails. In \<^verbatim>\<open>weak_only\<close> mode
  with an empty candidate list (or none) it produces a started weak-only session whose
  cluster is the fallback start cluster and whose tally and candidate list are empty.
  The refusal is the caller's: the retry handler starts no session when no cluster has a
  positive miss count.
\<close>

theorem reset_quiz_state_weak_empty:
  "reset_quiz_state subj total_q ''weak_only'' (Some []) timer now =
     \<lparr> started = True, subject = subj, cluster = get_or CLUSTER_LIMITS subj 6 div 2,
       question_index = 0, total_questions = total_q, score = 0, used_indices = [],
       current_question = None, submitted = False, feedback = [], weak_clusters = [],
       mode = ''weak_only'', weak_only_list = [],
       time_left = (if timer then total_q * 15 else 0), last_tick = now,
       enable_timer = timer \<rparr> \<and>
   reset_quiz_state subj total_q ''weak_only'' None timer now =
     reset_quiz_state subj total_q ''weak_only'' (Some []) timer now \<and>
   ((\<forall>p \<in> set (weak_clusters quiz). snd p \<le> 0) \<longrightarrow>
      retry_weak_areas subj total_q timer now quiz = None)"
  by (simp add: reset_quiz_state_def Let_def retry_weak_areas_None)

theorem reset_quiz_state_weak_empty_witness:
  "weak_clusters ex_weak = [(5, 0), (2, 0)] \<and>
   retry_weak_areas ''Mathematics'' 3 True 0 ex_weak = None \<and>
   started (reset_quiz_state ''Mathematics'' 3 ''weak_only'' (Some []) True 0)"
proof -
  have tally: "weak_clusters ex_weak = [(5, 0), (2, 0)]"
    by (simp add: ex_defs code_defs)
  then have "\<forall>p \<in> set (weak_clusters ex_weak). snd p \<le> 0"
    by simp
  with reset_quiz_state_weak_empty[of "''Mathematics''" 3 True 0 ex_weak] tally
  show ?thesis by simp
qed

text \<open>
  C3 as stated fails: the call of the scenario returns a started session.
\<close>

theorem reset_quiz_state_weak_empty_counterexample:
  "started (reset_quiz_state ''English'' 5 ''weak_only'' (Some []) True 0) \<and>
   mode (reset_quiz_state ''English'' 5 ''weak_only'' (Some []) True 0) = ''weak_only'' \<and>
   weak_only_list (reset_quiz_state ''English'' 5 ''weak_only'' (Some []) True 0) = [] \<and>
   cluster (reset_quiz_state ''English'' 5 ''weak_only'' (Some []) True 0) = 3"
  by (simp add: code_defs)

text \<open>
  C7 (as the code has it). The start cluster is half the subject's maximum cluster,
  rounded down (the maximum being 6 for a subject without an entry), not the midpoint of
  the range from \<open>MIN_CLUSTER\<close>: 4 for Mathematics and 3 for English. In normal mode
  that is the current cluster of a fresh session; in \<^verbatim>\<open>weak_only\<close> mode it is the
  first candidate, and half the maximum when there is no candidate.
\<close>

theorem reset_quiz_state_start_cluster:
  "cluster (reset_quiz_state subj total_q ''normal'' wol timer now) =
     get_or CLUSTER_LIMITS subj 6 div 2 \<and>
   cluster (reset_quiz_state ''Mathematics'' total_q ''normal'' wol timer now) = 4 \<and>
   cluster (reset_quiz_state ''English'' total_q ''normal'' wol timer now) = 3 \<and>
   cluster (reset_quiz_state subj total_q ''weak_only'' (Some (c # cs)) timer now) = c \<and>
   cluster (reset_quiz_state subj total_q ''weak_only'' (Some []) timer now) =
     get_or CLUSTER_LIMITS subj 6 div 2 \<and>
   cluster (reset_quiz_state subj total_q ''weak_only'' None timer now) =
     get_or CLUSTER_LIMITS subj 6 div 2"
  by (simp add: reset_quiz_state_def Let_def get_or_def CLUSTER_LIMITS_def)

text \<open>
  C7 as stated fails for English: the range is 1 to 7, its midpoint is 4, and a fresh
  session starts at cluster 3.
\<close>

theorem reset_quiz_state_english_counterexample:
  "CLUSTER_LIMITS ''English'' = Some 7 \<and> (MIN_CLUSTER + 7) div 2 = 4 \<and>
   cluster (reset_quiz_state ''English'' 5 ''normal'' None True 0) = 3"
  by (simp add: code_defs)

text \<open>
  C8 (as the code has it). \<open>reset_quiz_state\<close> does not validate the number of questions:
  for every count, the counts below 1 included, it produces a started session with that
  count as its target and fifteen seconds per question on the timer.
\<close>

theorem reset_quiz_state_total:
  "started (reset_quiz_state subj total_q md wol timer now) \<and>
   total_questions (reset_quiz_state subj total_q md wol timer now) = total_q \<and>
   question_index (reset_quiz_state subj total_q md wol timer now) = 0 \<and>
   score (reset_quiz_state subj total_q md wol timer now) = 0 \<and>
   time_left (reset_quiz_state subj total_q md wol timer now) =
     (if timer then total_q * 15 else 0)"
  by (simp add: reset_quiz_state_def Let_def)

text \<open>
  C8 as stated fails: a request for zero questions returns a started session.
\<close>

theorem reset_quiz_state_zero_total_counterexample:
  "started (reset_quiz_state ''English'' 0 ''normal'' None True 0) \<and>
   total_questions (reset_quiz_state ''English'' 0 ''normal'' None True 0) = 0 \<and>
   time_left (reset_quiz_state ''English'' 0 ''normal'' None True 0) = 0"
  by (simp add: code_defs)

end
